theory Spec2Isabelle
  imports Complex_Main
begin

section \<open>Uncertainty-aware gradual domain ensemble (adapter/uagde.py)\<close>

text \<open>
  A shallow embedding of the class \<^verbatim>\<open>UncertaintyAwareGradualDomainEnsemble\<close>.

  Float tensors are idealised: a scalar is a \<^typ>\<open>real\<close>, a one-dimensional tensor a
  \<^typ>\<open>real list\<close>, a two-dimensional tensor (batch by classes) a list of rows. Rounding
  and infinities are outside the model. The one non-finite value the code can produce
  from finite data without raising, the mean of an empty tensor (0/0, NaN), is kept: a
  scalar that may be NaN is a \<^typ>\<open>real option\<close> with \<open>None\<close> for NaN.

  Every exception is a value of the type \<open>error\<close>; a function that can raise returns
  \<open>error + 'a\<close>. Operands of incompatible shape raise \<open>RuntimeError\<close>; the
  broadcasting of a dimension of size one is not modelled, since the index, input and
  label tensors of a batch come from the same loader item.
\<close>

datatype error =
    RuntimeError | ValueError | IndexError | KeyError
  | ZeroDivisionError | AttributeError | UnboundLocalError | NaNResult

type_synonym tensor1 = "real list"
type_synonym tensor2 = "real list list"

subsection \<open>The tensor library as far as the class uses it\<close>

text \<open>Running a fallible function over a list, stopping at the first exception.\<close>

fun traverse :: "('a \<Rightarrow> error + 'b) \<Rightarrow> 'a list \<Rightarrow> error + 'b list" where
  "traverse f [] = Inr []"
| "traverse f (x # xs) =
     (case f x of
        Inl e \<Rightarrow> Inl e
      | Inr y \<Rightarrow> (case traverse f xs of Inl e \<Rightarrow> Inl e | Inr ys \<Rightarrow> Inr (y # ys)))"

text \<open>\<^verbatim>\<open>torch.amax(t, 1)\<close> and \<^verbatim>\<open>torch.amin(t, 1)\<close>: the reduction raises on a
  dimension of size zero.\<close>

fun amax_row :: "tensor1 \<Rightarrow> error + real" where
  "amax_row [] = Inl RuntimeError"
| "amax_row (x # xs) = Inr (fold max xs x)"

fun amin_row :: "tensor1 \<Rightarrow> error + real" where
  "amin_row [] = Inl RuntimeError"
| "amin_row (x # xs) = Inr (fold min xs x)"

definition amax :: "tensor2 \<Rightarrow> error + tensor1" where
  "amax t = traverse amax_row t"

definition amin :: "tensor2 \<Rightarrow> error + tensor1" where
  "amin t = traverse amin_row t"

text \<open>\<^verbatim>\<open>torch.argmax(t, dim=1)\<close>: the index of the first maximal entry of each row.\<close>

fun argmax_from :: "nat \<Rightarrow> real \<Rightarrow> nat \<Rightarrow> tensor1 \<Rightarrow> nat" where
  "argmax_from best bv i [] = best"
| "argmax_from best bv i (x # xs) =
     (if bv < x then argmax_from i x (Suc i) xs else argmax_from best bv (Suc i) xs)"

fun argmax_row :: "tensor1 \<Rightarrow> error + nat" where
  "argmax_row [] = Inl RuntimeError"
| "argmax_row (x # xs) = Inr (argmax_from 0 x 1 xs)"

definition argmax :: "tensor2 \<Rightarrow> error + nat list" where
  "argmax t = traverse argmax_row t"

text \<open>\<^verbatim>\<open>F.softmax(t, dim=1)\<close> and \<^verbatim>\<open>F.log_softmax(t, dim=1)\<close>.\<close>

definition softmax_row :: "tensor1 \<Rightarrow> tensor1" where
  "softmax_row r = map (\<lambda>x. exp x / sum_list (map exp r)) r"

definition softmax :: "tensor2 \<Rightarrow> tensor2" where
  "softmax t = map softmax_row t"

definition log_softmax_row :: "tensor1 \<Rightarrow> tensor1" where
  "log_softmax_row r = map (\<lambda>x. x - ln (sum_list (map exp r))) r"

definition log_softmax :: "tensor2 \<Rightarrow> tensor2" where
  "log_softmax t = map log_softmax_row t"

text \<open>\<^verbatim>\<open>F.nll_loss(logp, target, reduction='none')\<close>: one entry per example, minus the
  log-probability at the target class. The batch sizes must agree and every target
  must be a class index.\<close>

definition nll_loss :: "tensor2 \<Rightarrow> nat list \<Rightarrow> error + tensor1" where
  "nll_loss logp target =
     (if length logp \<noteq> length target then Inl ValueError
      else traverse (\<lambda>(r, c). if c < length r then Inr (- (r ! c)) else Inl IndexError)
             (zip logp target))"

text \<open>Multiplying a float tensor by a boolean mask: \<open>True\<close> is 1 and \<open>False\<close> is 0.\<close>

definition mul_mask :: "tensor1 \<Rightarrow> bool list \<Rightarrow> error + tensor1" where
  "mul_mask xs msk =
     (if length xs \<noteq> length msk then Inl RuntimeError
      else Inr (map2 (\<lambda>x b. x * (if b then 1 else 0)) xs msk))"

text \<open>\<^verbatim>\<open>t.mean()\<close>: the sum divided by the number of entries; NaN on an empty tensor.\<close>

definition mean :: "tensor1 \<Rightarrow> real option" where
  "mean xs = (if xs = [] then None else Some (sum_list xs / real (length xs)))"

text \<open>\<^verbatim>\<open>mask.sum().item()\<close>: how many entries of the mask are set.\<close>

definition mask_sum :: "bool list \<Rightarrow> nat" where
  "mask_sum msk = length (filter (\<lambda>b. b) msk)"

subsection \<open>The confidence thresholder\<close>

text \<open>\<^verbatim>\<open>torch.amax(p, 1) - torch.amin(p, 1)\<close>, the spread of every row.\<close>

definition confidence_of :: "tensor2 \<Rightarrow> error + tensor1" where
  "confidence_of p =
     (case amax p of
        Inl e \<Rightarrow> Inl e
      | Inr hi \<Rightarrow> (case amin p of Inl e \<Rightarrow> Inl e | Inr lo \<Rightarrow> Inr (map2 (-) hi lo)))"

text \<open>\<^verbatim>\<open>_pseudo_label_loss(student_logits, ensemble_probs, alpha)\<close> returns the scalar
  loss and the mask.\<close>

definition pseudo_label_loss ::
  "tensor2 \<Rightarrow> tensor2 \<Rightarrow> real \<Rightarrow> error + (real option \<times> bool list)" where
  "pseudo_label_loss student_logits ensemble_probs alpha =
     (case confidence_of ensemble_probs of
        Inl e \<Rightarrow> Inl e
      | Inr confidence \<Rightarrow>
          (let msk = map (\<lambda>c. alpha \<le> c) confidence in
           case argmax ensemble_probs of
             Inl e \<Rightarrow> Inl e
           | Inr teacher_pred \<Rightarrow>
               (case nll_loss (log_softmax student_logits) teacher_pred of
                  Inl e \<Rightarrow> Inl e
                | Inr nll \<Rightarrow>
                    (case mul_mask nll msk of
                       Inl e \<Rightarrow> Inl e
                     | Inr masked \<Rightarrow> Inr (mean masked, msk)))))"

text \<open>\<^verbatim>\<open>torch.cat(ts)\<close> along the batch dimension: raises on an empty list of tensors.\<close>

definition cat :: "tensor2 list \<Rightarrow> error + tensor2" where
  "cat ts = (if ts = [] then Inl RuntimeError else Inr (concat ts))"

text \<open>\<^verbatim>\<open>torch.quantile(xs, q)\<close> with the default linear interpolation: the input is
  sorted, the rank \<open>q * (n - 1)\<close> is split into the ranks below and above it, and the
  two values are interpolated. It raises on an empty input and on \<open>q\<close> outside [0, 1].\<close>

definition quantile :: "tensor1 \<Rightarrow> real \<Rightarrow> error + real" where
  "quantile xs q =
     (if xs = [] \<or> q < 0 \<or> 1 < q then Inl RuntimeError
      else
        (let sorted = sort xs;
             rank = q * real (length xs - 1);
             below = nat \<lfloor>rank\<rfloor>;
             above = nat \<lceil>rank\<rceil>;
             weight = rank - real below
         in Inr (sorted ! below + weight * (sorted ! above - sorted ! below))))"

subsection \<open>The object, its collaborators and the loaders\<close>

text \<open>The fields of the object the methods read or write. The device, the validator
  and the log writer are collaborators and hold no state that the methods read back.\<close>

record 'm uagde =
  model :: 'm
  Z :: tensor2
  z :: tensor2
  slope :: real
  pl_acc_list :: "real list"

text \<open>
  The collaborators, as functions: the network (\<open>forward\<close>, with \<open>set_train\<close> and
  \<open>set_eval\<close> for \<^verbatim>\<open>model.train()\<close> and \<^verbatim>\<open>model.eval()\<close>), the optimizer
  (\<open>new_optimizer\<close> for \<^verbatim>\<open>torch.optim.Adam(model.parameters(), lr)\<close>, and
  \<open>train_step\<close> for \<^verbatim>\<open>zero_grad(); loss.backward(); step()\<close>: the loss as a function of
  the parameters is fixed by the input batch, the ensemble rows and alpha), the size
  of an input batch (\<^verbatim>\<open>data.shape[0]\<close>) and the validator's score of the logits.
\<close>

record ('m, 'o, 'x) env =
  forward :: "'m \<Rightarrow> 'x \<Rightarrow> tensor2"
  set_train :: "'m \<Rightarrow> 'm"
  set_eval :: "'m \<Rightarrow> 'm"
  new_optimizer :: "'m \<Rightarrow> real \<Rightarrow> 'o"
  train_step :: "'m \<Rightarrow> 'o \<Rightarrow> 'x \<Rightarrow> tensor2 \<Rightarrow> real \<Rightarrow> 'm \<times> 'o"
  batch_size :: "'x \<Rightarrow> nat"
  validator :: "tensor2 \<Rightarrow> real"

text \<open>A loader yields batches \<^verbatim>\<open>(idx, data, y)\<close>: the example ids, the inputs and the
  labels. \<^verbatim>\<open>domain2trainloader\<close> is a dict, read in insertion order by \<^verbatim>\<open>items()\<close>.\<close>

type_synonym 'x batch = "nat list \<times> 'x \<times> nat list"
type_synonym 'x loader = "'x batch list"
type_synonym 'x domain2trainloader = "(int \<times> 'x loader) list"

text \<open>The fields of \<^verbatim>\<open>args\<close> that change what is computed.\<close>

record args =
  adapt_lr :: real
  adapt_epochs :: int

subsection \<open>Indexing a tensor with a tensor of example ids\<close>

text \<open>\<^verbatim>\<open>t[idx]\<close> as a value: the rows at the ids, \<open>IndexError\<close> when an id is out of
  range.\<close>

definition gather :: "tensor2 \<Rightarrow> nat list \<Rightarrow> error + tensor2" where
  "gather t idx = traverse (\<lambda>i. if i < length t then Inr (t ! i) else Inl IndexError) idx"

text \<open>\<^verbatim>\<open>t[idx] = rows\<close>: one row is stored per id, in order.\<close>

definition scatter :: "tensor2 \<Rightarrow> nat list \<Rightarrow> tensor2 \<Rightarrow> error + tensor2" where
  "scatter t idx rows =
     (if length rows \<noteq> length idx then Inl RuntimeError
      else if \<exists>i \<in> set idx. length t \<le> i then Inl IndexError
      else Inr (fold (\<lambda>(i, r) u. u[i := r]) (zip idx rows) t))"

subsection \<open>The pseudo-label store and the momentum update\<close>

text \<open>\<^verbatim>\<open>_entropy(probs)\<close>: the mean over the rows of minus the sum of
  \<open>p * log (p + 1e-20)\<close>.\<close>

definition entropy :: "tensor2 \<Rightarrow> real option" where
  "entropy probs = mean (map (\<lambda>r. - sum_list (map (\<lambda>p. p * ln (p + 1 / 10 ^ 20)) r)) probs)"

text \<open>\<^verbatim>\<open>torch.clip(x, lo, hi)\<close>.\<close>

definition clip :: "real \<Rightarrow> real \<Rightarrow> real \<Rightarrow> real" where
  "clip x lo hi = min (max x lo) hi"

text \<open>The right-hand side of the assignment to \<^verbatim>\<open>momentum\<close> in \<^verbatim>\<open>_update_Z\<close>.\<close>

definition momentum_value :: "real \<Rightarrow> real \<Rightarrow> real \<Rightarrow> int \<Rightarrow> real" where
  "momentum_value slp current_avg_entropy ensemble_avg_entropy domain_idx =
     (if domain_idx \<noteq> 1
      then clip (0.5 + slp * (current_avg_entropy - ensemble_avg_entropy)) 0 1
      else 0)"

text \<open>The branch \<^verbatim>\<open>if d == domain_idx\<close>: the softmax outputs and the ensemble rows of
  every batch are collected and concatenated, and their entropies give the momentum.
  An entropy that is NaN (no rows at all) would make a NaN momentum for a domain other
  than the first; the real-valued model stops there with \<open>NaNResult\<close>.\<close>

definition momentum_of ::
  "('m, 'o, 'x) env \<Rightarrow> 'm uagde \<Rightarrow> int \<Rightarrow> 'x loader \<Rightarrow> error + real" where
  "momentum_of env s domain_idx loader =
     (case traverse (\<lambda>(idx, img, y).
                  case gather (z s) idx of
                    Inl e \<Rightarrow> Inl e
                  | Inr ens \<Rightarrow> Inr (softmax (forward env (model s) img), ens)) loader of
        Inl e \<Rightarrow> Inl e
      | Inr totals \<Rightarrow>
          (case cat (map snd totals) of
             Inl e \<Rightarrow> Inl e
           | Inr total_ensemble_probs \<Rightarrow>
               (case cat (map fst totals) of
                  Inl e \<Rightarrow> Inl e
                | Inr total_current_probs \<Rightarrow>
                    (case (entropy total_ensemble_probs, entropy total_current_probs) of
                       (Some ensemble_avg_entropy, Some current_avg_entropy) \<Rightarrow>
                         Inr (momentum_value (slope s) current_avg_entropy
                                ensemble_avg_entropy domain_idx)
                     | _ \<Rightarrow> (if domain_idx \<noteq> 1 then Inl NaNResult else Inr 0)))))"

text \<open>\<^verbatim>\<open>momentum * self.Z[idx] + (1 - momentum) * probs\<close>, on operands of one shape.\<close>

definition blend :: "real \<Rightarrow> tensor2 \<Rightarrow> tensor2 \<Rightarrow> error + tensor2" where
  "blend m old probs =
     (if map length old \<noteq> map length probs then Inl RuntimeError
      else Inr (map2 (\<lambda>r p. map2 (\<lambda>a b. m * a + (1 - m) * b) r p) old probs))"

text \<open>\<^verbatim>\<open>F.normalize(t, p=1)\<close>: every row is divided by the larger of its L1 norm and
  \<open>eps = 1e-12\<close>.\<close>

definition normalize_row :: "tensor1 \<Rightarrow> tensor1" where
  "normalize_row r = map (\<lambda>v. v / max (sum_list (map abs r)) (1 / 10 ^ 12)) r"

definition normalize :: "tensor2 \<Rightarrow> tensor2" where
  "normalize t = map normalize_row t"

text \<open>The body of the second loop over a loader, for one batch. The object is mutated
  in place, so the state reached is returned with an exception too. \<open>momentum\<close> is a
  local variable that is unbound until the branch for \<open>d = domain_idx\<close> has run.\<close>

definition update_batch ::
  "('m, 'o, 'x) env \<Rightarrow> real option \<Rightarrow> 'm uagde \<Rightarrow> 'x batch \<Rightarrow> (error + unit) \<times> 'm uagde" where
  "update_batch env momentum s b =
     (case b of (idx, img, y) \<Rightarrow>
        (let probs = softmax (forward env (model s) img) in
         case momentum of
           None \<Rightarrow> (Inl UnboundLocalError, s)
         | Some m \<Rightarrow>
             (case gather (Z s) idx of
                Inl e \<Rightarrow> (Inl e, s)
              | Inr old \<Rightarrow>
                  (case blend m old probs of
                     Inl e \<Rightarrow> (Inl e, s)
                   | Inr new \<Rightarrow>
                       (case scatter (Z s) idx new of
                          Inl e \<Rightarrow> (Inl e, s)
                        | Inr Z' \<Rightarrow>
                            (let s1 = s\<lparr>Z := Z'\<rparr> in
                             case gather (Z s1) idx of
                               Inl e \<Rightarrow> (Inl e, s1)
                             | Inr rows \<Rightarrow>
                                 (case scatter (z s1) idx (normalize rows) of
                                    Inl e \<Rightarrow> (Inl e, s1)
                                  | Inr z' \<Rightarrow> (Inr (), s1\<lparr>z := z'\<rparr>))))))))"

fun update_loader ::
  "('m, 'o, 'x) env \<Rightarrow> real option \<Rightarrow> 'm uagde \<Rightarrow> 'x loader \<Rightarrow> (error + unit) \<times> 'm uagde" where
  "update_loader env momentum s [] = (Inr (), s)"
| "update_loader env momentum s (b # bs) =
     (case update_batch env momentum s b of
        (Inl e, s') \<Rightarrow> (Inl e, s')
      | (Inr u, s') \<Rightarrow> update_loader env momentum s' bs)"

text \<open>The loop over \<^verbatim>\<open>domain2trainloader.items()\<close>.\<close>

fun update_domains ::
  "('m, 'o, 'x) env \<Rightarrow> int \<Rightarrow> real option \<Rightarrow> 'm uagde \<Rightarrow> 'x domain2trainloader
     \<Rightarrow> (error + unit) \<times> 'm uagde" where
  "update_domains env domain_idx momentum s [] = (Inr (), s)"
| "update_domains env domain_idx momentum s ((d, loader) # rest) =
     (if d < domain_idx then update_domains env domain_idx momentum s rest
      else
        (case (if d = domain_idx
               then (case momentum_of env s domain_idx loader of
                       Inl e \<Rightarrow> Inl e
                     | Inr m \<Rightarrow> Inr (Some m))
               else Inr momentum) of
           Inl e \<Rightarrow> (Inl e, s)
         | Inr momentum' \<Rightarrow>
             (case update_loader env momentum' s loader of
                (Inl e, s') \<Rightarrow> (Inl e, s')
              | (Inr u, s') \<Rightarrow> update_domains env domain_idx momentum' s' rest)))"

text \<open>\<^verbatim>\<open>_update_Z(domain2trainloader, domain_idx)\<close>.\<close>

definition update_Z ::
  "('m, 'o, 'x) env \<Rightarrow> 'm uagde \<Rightarrow> 'x domain2trainloader \<Rightarrow> int \<Rightarrow> (error + unit) \<times> 'm uagde" where
  "update_Z env s domain2trainloader domain_idx =
     update_domains env domain_idx None (s\<lparr>model := set_eval env (model s)\<rparr>) domain2trainloader"

text \<open>\<^verbatim>\<open>_calc_alpha(loader, confidence_q)\<close>.\<close>

definition calc_alpha :: "'m uagde \<Rightarrow> 'x loader \<Rightarrow> real \<Rightarrow> error + real" where
  "calc_alpha s loader confidence_q =
     (case traverse (\<lambda>(idx, img, y). gather (Z s) idx) loader of
        Inl e \<Rightarrow> Inl e
      | Inr total_prob \<Rightarrow>
          (case cat total_prob of
             Inl e \<Rightarrow> Inl e
           | Inr total_prob \<Rightarrow>
               (case confidence_of total_prob of
                  Inl e \<Rightarrow> Inl e
                | Inr confidence \<Rightarrow> quantile confidence confidence_q)))"

subsection \<open>The adaptation trainer\<close>

text \<open>\<^verbatim>\<open>total_loss += loss.item() * mask.sum().item()\<close>, where either float may be NaN.\<close>

definition add_weighted :: "real option \<Rightarrow> real option \<Rightarrow> nat \<Rightarrow> real option" where
  "add_weighted total_loss loss n =
     (case (total_loss, loss) of
        (Some t, Some l) \<Rightarrow> Some (t + l * real n)
      | _ \<Rightarrow> None)"

text \<open>The loop of \<^verbatim>\<open>_adapt_train_epoch\<close>. The model and the optimizer are mutated by
  every step; the accumulators are \<^verbatim>\<open>total_loss\<close>, \<^verbatim>\<open>total_num\<close> and
  \<^verbatim>\<open>total_logits\<close>.\<close>

fun train_batches ::
  "('m, 'o, 'x) env \<Rightarrow> 'm uagde \<Rightarrow> real \<Rightarrow> 'm \<times> 'o \<times> real option \<times> nat \<times> tensor2 list
     \<Rightarrow> 'x loader \<Rightarrow> error + ('m \<times> 'o \<times> real option \<times> nat \<times> tensor2 list)" where
  "train_batches env s alpha acc [] = Inr acc"
| "train_batches env s alpha (mdl, opt, total_loss, total_num, total_logits)
       ((idx, data, y) # rest) =
     (let student_logits = forward env mdl data in
      case gather (z s) idx of
        Inl e \<Rightarrow> Inl e
      | Inr ensemble_probs \<Rightarrow>
          (case pseudo_label_loss student_logits ensemble_probs alpha of
             Inl e \<Rightarrow> Inl e
           | Inr (loss, msk) \<Rightarrow>
               (case train_step env mdl opt data ensemble_probs alpha of
                  (mdl', opt') \<Rightarrow>
                    train_batches env s alpha
                      (mdl', opt', add_weighted total_loss loss (mask_sum msk),
                       total_num + mask_sum msk, total_logits @ [student_logits]) rest)))"

text \<open>\<^verbatim>\<open>total_loss /= total_num\<close> on Python numbers, then the score of the
  concatenated logits.\<close>

definition finish_epoch ::
  "('m, 'o, 'x) env \<Rightarrow> real option \<Rightarrow> nat \<Rightarrow> tensor2 list \<Rightarrow> error + (real option \<times> real)" where
  "finish_epoch env total_loss total_num total_logits =
     (if total_num = 0 then Inl ZeroDivisionError
      else
        (case cat total_logits of
           Inl e \<Rightarrow> Inl e
         | Inr logits \<Rightarrow>
             Inr (map_option (\<lambda>t. t / real total_num) total_loss, validator env logits)))"

text \<open>\<^verbatim>\<open>_adapt_train_epoch(model, train_loader, optimizer, alpha)\<close> returns the loss
  and the score; the model and the optimizer it has mutated are returned with them.\<close>

definition adapt_train_epoch ::
  "('m, 'o, 'x) env \<Rightarrow> 'm uagde \<Rightarrow> 'm \<Rightarrow> 'x loader \<Rightarrow> 'o \<Rightarrow> real
     \<Rightarrow> error + ((real option \<times> real) \<times> 'm \<times> 'o)" where
  "adapt_train_epoch env s mdl train_loader optimizer alpha =
     (case train_batches env s alpha (set_train env mdl, optimizer, Some 0, 0, []) train_loader of
        Inl e \<Rightarrow> Inl e
      | Inr (mdl', opt', total_loss, total_num, total_logits) \<Rightarrow>
          (case finish_epoch env total_loss total_num total_logits of
             Inl e \<Rightarrow> Inl e
           | Inr r \<Rightarrow> Inr (r, mdl', opt')))"



text \<open>\<^verbatim>\<open>torch.eq(a, b).sum().item()\<close> on two index tensors of one shape.\<close>

definition eq_count :: "nat list \<Rightarrow> nat list \<Rightarrow> error + nat" where
  "eq_count a b =
     (if length a \<noteq> length b then Inl RuntimeError
      else Inr (length (filter (\<lambda>(p, q). p = q) (zip a b))))"

text \<open>The loop of \<^verbatim>\<open>_oracle_eval_epoch\<close>, with the accumulators \<^verbatim>\<open>total_correct\<close>,
  \<^verbatim>\<open>total_pl_correct\<close> and \<^verbatim>\<open>total_num\<close>.\<close>

fun oracle_batches ::
  "('m, 'o, 'x) env \<Rightarrow> 'm uagde \<Rightarrow> 'm \<Rightarrow> nat \<times> nat \<times> nat \<Rightarrow> 'x loader
     \<Rightarrow> error + (nat \<times> nat \<times> nat)" where
  "oracle_batches env s mdl acc [] = Inr acc"
| "oracle_batches env s mdl (total_correct, total_pl_correct, total_num) ((idx, data, y) # rest) =
     (case argmax (forward env mdl data) of
        Inl e \<Rightarrow> Inl e
      | Inr pred \<Rightarrow>
          (case eq_count pred y of
             Inl e \<Rightarrow> Inl e
           | Inr c \<Rightarrow>
               (case gather (z s) idx of
                  Inl e \<Rightarrow> Inl e
                | Inr rows \<Rightarrow>
                    (case argmax rows of
                       Inl e \<Rightarrow> Inl e
                     | Inr pl \<Rightarrow>
                         (case eq_count pl y of
                            Inl e \<Rightarrow> Inl e
                          | Inr pc \<Rightarrow>
                              oracle_batches env s mdl
                                (total_correct + c, total_pl_correct + pc,
                                 total_num + batch_size env data) rest)))))"

text \<open>\<^verbatim>\<open>_oracle_eval_epoch(model, val_loader)\<close> returns the accuracy of the model and
  of the pseudo-labels.\<close>

definition oracle_eval_epoch ::
  "('m, 'o, 'x) env \<Rightarrow> 'm uagde \<Rightarrow> 'm \<Rightarrow> 'x loader \<Rightarrow> error + ((real \<times> real) \<times> 'm)" where
  "oracle_eval_epoch env s mdl val_loader =
     (case oracle_batches env s (set_eval env mdl) (0, 0, 0) val_loader of
        Inl e \<Rightarrow> Inl e
      | Inr (total_correct, total_pl_correct, total_num) \<Rightarrow>
          (if total_num = 0 then Inl ZeroDivisionError
           else Inr ((real total_correct / real total_num,
                      real total_pl_correct / real total_num), set_eval env mdl)))"

text \<open>The loop \<^verbatim>\<open>for e in range(1, args.adapt_epochs + 1)\<close> of \<^verbatim>\<open>_adapt_train_eval\<close>.
  The last component holds \<^verbatim>\<open>pl_acc\<close> and \<^verbatim>\<open>train_score\<close>, which are unbound until the
  first epoch has run.\<close>

fun run_epochs ::
  "('m, 'o, 'x) env \<Rightarrow> 'm uagde \<Rightarrow> 'x loader \<Rightarrow> real \<Rightarrow> nat \<Rightarrow> 'm \<times> 'o \<times> (real \<times> real) option
     \<Rightarrow> error + ('m \<times> 'o \<times> (real \<times> real) option)" where
  "run_epochs env s train_loader alpha 0 st = Inr st"
| "run_epochs env s train_loader alpha (Suc n) (mdl, opt, prev) =
     (case adapt_train_epoch env s mdl train_loader opt alpha of
        Inl e \<Rightarrow> Inl e
      | Inr ((train_loss, train_score), mdl1, opt1) \<Rightarrow>
          (case oracle_eval_epoch env s mdl1 train_loader of
             Inl e \<Rightarrow> Inl e
           | Inr ((train_acc, pl_acc), mdl2) \<Rightarrow>
               run_epochs env s train_loader alpha n (mdl2, opt1, Some (pl_acc, train_score))))"

text \<open>\<^verbatim>\<open>domain2trainloader[domain_idx]\<close>.\<close>

definition dict_get :: "('k \<times> 'v) list \<Rightarrow> 'k \<Rightarrow> error + 'v" where
  "dict_get d k = (case map_of d k of None \<Rightarrow> Inl KeyError | Some v \<Rightarrow> Inr v)"

text \<open>\<^verbatim>\<open>_adapt_train_eval(domain_idx, domain2trainloader, confidence_q, args)\<close> returns
  the trained copy of the model and its last train score.\<close>

definition adapt_train_eval ::
  "('m, 'o, 'x) env \<Rightarrow> 'm uagde \<Rightarrow> int \<Rightarrow> 'x domain2trainloader \<Rightarrow> real \<Rightarrow> args
     \<Rightarrow> (error + ('m \<times> real)) \<times> 'm uagde" where
  "adapt_train_eval env s domain_idx domain2trainloader confidence_q a =
     (case update_Z env s domain2trainloader domain_idx of
        (Inl e, s1) \<Rightarrow> (Inl e, s1)
      | (Inr u, s1) \<Rightarrow>
          (case dict_get domain2trainloader domain_idx of
             Inl e \<Rightarrow> (Inl e, s1)
           | Inr train_loader \<Rightarrow>
               (case calc_alpha s1 train_loader confidence_q of
                  Inl e \<Rightarrow> (Inl e, s1)
                | Inr alpha \<Rightarrow>
                    (case run_epochs env s1 train_loader alpha (nat (adapt_epochs a))
                            (model s1, new_optimizer env (model s1) (adapt_lr a), None) of
                       Inl e \<Rightarrow> (Inl e, s1)
                     | Inr (mdl, opt, None) \<Rightarrow> (Inl UnboundLocalError, s1)
                     | Inr (mdl, opt, Some (pl_acc, train_score)) \<Rightarrow>
                         (Inr (mdl, train_score),
                          s1\<lparr>pl_acc_list := pl_acc_list s1 @ [pl_acc]\<rparr>)))))"

subsection \<open>The sweep orchestrator\<close>

text \<open>\<^verbatim>\<open>performance_dict[confidence_q] = ...\<close>: a dict keeps the position of a key it
  already has and appends a new one.\<close>

fun dict_set :: "('k \<times> 'v) list \<Rightarrow> 'k \<Rightarrow> 'v \<Rightarrow> ('k \<times> 'v) list" where
  "dict_set [] k v = [(k, v)]"
| "dict_set ((k', v') # d) k v = (if k' = k then (k, v) # d else (k', v') # dict_set d k v)"

text \<open>The first loop of \<^verbatim>\<open>adapt\<close>: one run per confidence quantile, each stored as
  the pair of the model and its score.\<close>

fun sweep ::
  "('m, 'o, 'x) env \<Rightarrow> int \<Rightarrow> 'x domain2trainloader \<Rightarrow> args \<Rightarrow> (real \<times> 'm \<times> real) list
     \<Rightarrow> 'm uagde \<Rightarrow> real list \<Rightarrow> (error + (real \<times> 'm \<times> real) list) \<times> 'm uagde" where
  "sweep env domain_idx d2l a performance_dict s [] = (Inr performance_dict, s)"
| "sweep env domain_idx d2l a performance_dict s (confidence_q # qs) =
     (case adapt_train_eval env s domain_idx d2l confidence_q a of
        (Inl e, s') \<Rightarrow> (Inl e, s')
      | (Inr (mdl, val_score), s') \<Rightarrow>
          sweep env domain_idx d2l a (dict_set performance_dict confidence_q (mdl, val_score))
            s' qs)"

text \<open>The second loop of \<^verbatim>\<open>adapt\<close>. \<^verbatim>\<open>best_score\<close> starts at minus infinity, which is
  \<open>None\<close> here, and \<^verbatim>\<open>best_model\<close> at \<^verbatim>\<open>None\<close>.\<close>

definition score_gt :: "real \<Rightarrow> real option \<Rightarrow> bool" where
  "score_gt sc best_score = (case best_score of None \<Rightarrow> True | Some b \<Rightarrow> b < sc)"

fun select_best ::
  "(real \<times> 'm \<times> real) list \<Rightarrow> 'm option \<times> real option \<Rightarrow> 'm option \<times> real option" where
  "select_best [] acc = acc"
| "select_best ((confidence_q, mdl, sc) # rest) (best_model, best_score) =
     (if score_gt sc best_score then select_best rest (Some mdl, Some sc)
      else select_best rest (best_model, best_score))"

text \<open>\<^verbatim>\<open>adapt(domain_idx, domain2trainloader, confidence_q_list, args)\<close>. The commit
  \<^verbatim>\<open>deepcopy(best_model).to(self.device)\<close> raises \<open>AttributeError\<close> on \<^verbatim>\<open>None\<close>.\<close>

definition adapt ::
  "('m, 'o, 'x) env \<Rightarrow> 'm uagde \<Rightarrow> int \<Rightarrow> 'x domain2trainloader \<Rightarrow> real list \<Rightarrow> args
     \<Rightarrow> (error + unit) \<times> 'm uagde" where
  "adapt env s domain_idx domain2trainloader confidence_q_list a =
     (case sweep env domain_idx domain2trainloader a [] s confidence_q_list of
        (Inl e, s') \<Rightarrow> (Inl e, s')
      | (Inr performance_dict, s') \<Rightarrow>
          (case fst (select_best performance_dict (None, None)) of
             None \<Rightarrow> (Inl AttributeError, s')
           | Some best_model \<Rightarrow> (Inr (), s'\<lparr>model := best_model\<rparr>)))"

subsection \<open>Notions used to state the properties\<close>


text \<open>The loss as the specification words it, to be compared with
  \<open>pseudo_label_loss\<close>: the mean, over the examples that pass the mask only, of the
  negative log-likelihood at the teacher label; with no such example the mean is 0/0.\<close>

definition spec_pseudo_label_loss ::
  "tensor2 \<Rightarrow> tensor2 \<Rightarrow> real \<Rightarrow> error + (real option \<times> bool list)" where
  "spec_pseudo_label_loss student_logits ensemble_probs alpha =
     (case confidence_of ensemble_probs of
        Inl e \<Rightarrow> Inl e
      | Inr confidence \<Rightarrow>
          (let msk = map (\<lambda>c. alpha \<le> c) confidence in
           case argmax ensemble_probs of
             Inl e \<Rightarrow> Inl e
           | Inr teacher_pred \<Rightarrow>
               (case nll_loss (log_softmax student_logits) teacher_pred of
                  Inl e \<Rightarrow> Inl e
                | Inr nll \<Rightarrow> Inr (mean (map fst (filter snd (zip nll msk))), msk))))"


text \<open>The example ids of the loaders that \<open>update_Z\<close> does not skip: those of the
  domains whose index is at least \<open>domain_idx\<close>.\<close>

definition touched :: "int \<Rightarrow> 'x domain2trainloader \<Rightarrow> nat set" where
  "touched domain_idx d2l =
     (\<Union>(d, loader) \<in> set d2l. if d < domain_idx then {} else (\<Union>(idx, img, y) \<in> set loader. set idx))"



subsection \<open>A small instance\<close>

text \<open>An instance to run the definitions on. The model is a number that the network
  ignores (the logits are the input batch itself) and that a training step increases by
  alpha; the optimizer has no state; the score of a pass is its number of logit rows.
  The store starts at zero. The loader has one batch of two examples, with ids 0 and 1
  and logits \<open>(ln 3, 0)\<close> and \<open>(0, 0)\<close>, whose softmax rows are \<open>(3/4, 1/4)\<close> and
  \<open>(1/2, 1/2)\<close>.\<close>

definition ex_env :: "(real, unit, tensor2) env" where
  "ex_env = \<lparr>forward = (\<lambda>m x. x), set_train = (\<lambda>m. m), set_eval = (\<lambda>m. m),
             new_optimizer = (\<lambda>m lr. ()), train_step = (\<lambda>m opt x p alpha. (m + alpha, opt)),
             batch_size = length, validator = (\<lambda>t. real (length t))\<rparr>"

definition ex_obj :: "real uagde" where
  "ex_obj = \<lparr>model = 0, Z = [[0, 0], [0, 0]], z = [[0, 0], [0, 0]], slope = 0, pl_acc_list = []\<rparr>"

definition ex_batch :: "tensor2 batch" where
  "ex_batch = ([0, 1], [[ln 3, 0], [0, 0]], [0, 0])"

definition ex_loader :: "tensor2 loader" where
  "ex_loader = [ex_batch]"


text \<open>A second store, for a run on a later domain: one example whose accumulator row
  is non-negative and tiny, with a slope of 2; its loader holds that example with uniform
  logits. And a dict of two domains over a store of two examples, the first example in
  domain 1 and the second in domain 2.\<close>

definition ex_tiny :: "real uagde" where
  "ex_tiny = \<lparr>model = 0, Z = [[1 / 10 ^ 13, 0]], z = [[1, 0]], slope = 2, pl_acc_list = []\<rparr>"

definition ex_loader1 :: "tensor2 loader" where
  "ex_loader1 = [([0], [[0, 0]], [0])]"

definition ex_two_domains :: "tensor2 domain2trainloader" where
  "ex_two_domains = [(1, [([0], [[0, 0]], [0])]), (2, [([1], [[0, 0]], [0])])]"

section \<open>Properties\<close>

subsection \<open>Facts about the tensor library\<close>

lemma traverse_Inr_length: "traverse f xs = Inr ys \<Longrightarrow> length ys = length xs"
  by (induction xs arbitrary: ys) (auto split: sum.splits)

lemma traverse_Inr_nth:
  "traverse f xs = Inr ys \<Longrightarrow> i < length xs \<Longrightarrow> f (xs ! i) = Inr (ys ! i)"
proof (induction xs arbitrary: ys i)
  case Nil then show ?case by simp
next
  case (Cons x xs)
  then show ?case by (cases i) (auto split: sum.splits)
qed

lemma traverse_Inr_map:
  "traverse f xs = Inr ys \<Longrightarrow> map f xs = map Inr ys"
  by (induction xs arbitrary: ys) (auto split: sum.splits)

lemma fold_max_Max: "fold max xs (x::real) = Max (set (x # xs))"
  by (rule Max.set_eq_fold[symmetric])

lemma fold_min_Min: "fold min xs (x::real) = Min (set (x # xs))"
  by (rule Min.set_eq_fold[symmetric])

lemma amax_row_Inr: "amax_row r = Inr v \<Longrightarrow> r \<noteq> [] \<and> v = Max (set r)"
  by (cases r) (auto simp: fold_max_Max simp del: set_simps)

lemma amin_row_Inr: "amin_row r = Inr v \<Longrightarrow> r \<noteq> [] \<and> v = Min (set r)"
  by (cases r) (auto simp: fold_min_Min simp del: set_simps)

lemma confidence_of_Inr:
  assumes "confidence_of p = Inr c"
  shows "length c = length p"
    and "i < length p \<Longrightarrow> p ! i \<noteq> [] \<and> c ! i = Max (set (p ! i)) - Min (set (p ! i))"
proof -
  from assms obtain hi lo where hi: "traverse amax_row p = Inr hi"
    and lo: "traverse amin_row p = Inr lo" and c: "c = map2 (-) hi lo"
    by (auto simp: confidence_of_def amax_def amin_def split: sum.splits)
  have lh: "length hi = length p" and ll: "length lo = length p"
    using hi lo by (simp_all add: traverse_Inr_length)
  show "length c = length p" using c lh ll by simp
  assume i: "i < length p"
  have "amax_row (p ! i) = Inr (hi ! i)" "amin_row (p ! i) = Inr (lo ! i)"
    using traverse_Inr_nth[OF hi i] traverse_Inr_nth[OF lo i] by simp_all
  then have "p ! i \<noteq> []" "hi ! i = Max (set (p ! i))" "lo ! i = Min (set (p ! i))"
    using amax_row_Inr amin_row_Inr by blast+
  then show "p ! i \<noteq> [] \<and> c ! i = Max (set (p ! i)) - Min (set (p ! i))"
    using c lh ll i by simp
qed

lemma argmax_from_first:
  assumes "best < length pre" "bv = pre ! best" "i = length pre"
    "\<forall>j < length pre. pre ! j \<le> bv" "\<forall>j < best. pre ! j < bv"
  shows "argmax_from best bv i xs < length (pre @ xs) \<and>
         (\<forall>j < length (pre @ xs). (pre @ xs) ! j \<le> (pre @ xs) ! argmax_from best bv i xs) \<and>
         (\<forall>j < argmax_from best bv i xs. (pre @ xs) ! j < (pre @ xs) ! argmax_from best bv i xs)"
  using assms
proof (induction xs arbitrary: best bv i pre)
  case Nil
  then show ?case by auto
next
  case (Cons x xs)
  show ?case
  proof (cases "bv < x")
    case True
    have "argmax_from i x (Suc i) xs < length ((pre @ [x]) @ xs) \<and>
         (\<forall>j < length ((pre @ [x]) @ xs). ((pre @ [x]) @ xs) ! j \<le> ((pre @ [x]) @ xs) ! argmax_from i x (Suc i) xs) \<and>
         (\<forall>j < argmax_from i x (Suc i) xs. ((pre @ [x]) @ xs) ! j < ((pre @ [x]) @ xs) ! argmax_from i x (Suc i) xs)"
    proof (rule Cons.IH)
      show "i < length (pre @ [x])" using Cons.prems(3) by simp
      show "x = (pre @ [x]) ! i" using Cons.prems(3) by simp
      show "Suc i = length (pre @ [x])" using Cons.prems(3) by simp
      show "\<forall>j<length (pre @ [x]). (pre @ [x]) ! j \<le> x"
        using Cons.prems(4) True by (auto simp: nth_append less_Suc_eq intro: less_imp_le order_trans)
      show "\<forall>j<i. (pre @ [x]) ! j < x"
        using Cons.prems(3,4) True by (auto simp: nth_append intro: le_less_trans)
    qed
    then show ?thesis using True by simp
  next
    case False
    have "argmax_from best bv (Suc i) xs < length ((pre @ [x]) @ xs) \<and>
         (\<forall>j < length ((pre @ [x]) @ xs). ((pre @ [x]) @ xs) ! j \<le> ((pre @ [x]) @ xs) ! argmax_from best bv (Suc i) xs) \<and>
         (\<forall>j < argmax_from best bv (Suc i) xs. ((pre @ [x]) @ xs) ! j < ((pre @ [x]) @ xs) ! argmax_from best bv (Suc i) xs)"
    proof (rule Cons.IH)
      show "best < length (pre @ [x])" using Cons.prems(1) by simp
      show "bv = (pre @ [x]) ! best" using Cons.prems(1,2) by (simp add: nth_append)
      show "Suc i = length (pre @ [x])" using Cons.prems(3) by simp
      show "\<forall>j<length (pre @ [x]). (pre @ [x]) ! j \<le> bv"
        using Cons.prems(4) False by (auto simp: nth_append less_Suc_eq)
      show "\<forall>j<best. (pre @ [x]) ! j < bv"
        using Cons.prems(1,5) by (auto simp: nth_append)
    qed
    then show ?thesis using False by simp
  qed
qed

lemma argmax_row_Inr:
  assumes "argmax_row r = Inr t"
  shows "t < length r \<and> (\<forall>j < length r. r ! j \<le> r ! t) \<and> (\<forall>j < t. r ! j < r ! t)"
proof (cases r)
  case Nil
  then show ?thesis using assms by simp
next
  case (Cons x xs)
  have "argmax_from 0 x (Suc 0) xs < length ([x] @ xs) \<and>
         (\<forall>j < length ([x] @ xs). ([x] @ xs) ! j \<le> ([x] @ xs) ! argmax_from 0 x (Suc 0) xs) \<and>
         (\<forall>j < argmax_from 0 x (Suc 0) xs. ([x] @ xs) ! j < ([x] @ xs) ! argmax_from 0 x (Suc 0) xs)"
    by (rule argmax_from_first) simp_all
  then show ?thesis using assms Cons by simp
qed

lemma argmax_Inr:
  assumes "argmax p = Inr t"
  shows "length t = length p"
    and "i < length p \<Longrightarrow> t ! i < length (p ! i) \<and>
          (\<forall>j < length (p ! i). p ! i ! j \<le> p ! i ! (t ! i)) \<and> (\<forall>j < t ! i. p ! i ! j < p ! i ! (t ! i))"
proof -
  have tr: "traverse argmax_row p = Inr t" using assms by (simp add: argmax_def)
  show "length t = length p" using tr by (rule traverse_Inr_length)
  assume "i < length p"
  then have "argmax_row (p ! i) = Inr (t ! i)" using tr by (rule traverse_Inr_nth[rotated])
  then show "t ! i < length (p ! i) \<and>
          (\<forall>j < length (p ! i). p ! i ! j \<le> p ! i ! (t ! i)) \<and> (\<forall>j < t ! i. p ! i ! j < p ! i ! (t ! i))"
    by (rule argmax_row_Inr)
qed

lemma mask_sum_0: "mask_sum msk = 0 \<Longrightarrow> i < length msk \<Longrightarrow> \<not> msk ! i"
proof -
  assume a: "mask_sum msk = 0" and i: "i < length msk"
  have "filter (\<lambda>b. b) msk = []" using a by (simp add: mask_sum_def)
  then have "\<forall>b \<in> set msk. \<not> b" by (simp only: filter_empty_conv)
  moreover have "msk ! i \<in> set msk" using i by (rule nth_mem)
  ultimately show "\<not> msk ! i" by blast
qed

lemma nll_loss_Inr:
  assumes "nll_loss logp target = Inr nll"
  shows "length logp = length target" and "length nll = length target"
    and "i < length target \<Longrightarrow> nll ! i = - (logp ! i ! (target ! i))"
proof -
  have len: "length logp = length target"
    and tr: "traverse (\<lambda>(r, c). if c < length r then Inr (- (r ! c)) else Inl IndexError)
               (zip logp target) = Inr nll"
    using assms by (auto simp: nll_loss_def split: if_splits)
  show "length logp = length target" by (rule len)
  show "length nll = length target" using traverse_Inr_length[OF tr] len by simp
  assume i: "i < length target"
  then have "i < length (zip logp target)" using len by simp
  from traverse_Inr_nth[OF tr this] show "nll ! i = - (logp ! i ! (target ! i))"
    using i len by (auto split: if_splits)
qed

lemma ln2_half: "ln 2 / 2 \<noteq> (ln 2 :: real)"
proof -
  have "0 < (ln 2 :: real)" by simp
  then show ?thesis by simp
qed

subsection \<open>The pseudo-label loss and its mask\<close>

text \<open>The two batches the examples below run on: two examples with uniform student
  logits, the first with the ensemble row (1, 0) and the second with the uniform row;
  and the second example alone.\<close>

lemma ex_confidence2: "confidence_of [[1, 0], [1/2, 1/2]] = Inr [1, 0]"
  by (simp add: confidence_of_def amax_def amin_def)

lemma ex_argmax2: "argmax [[1, 0], [1/2, 1/2]] = Inr [0, 0]"
  by (simp add: argmax_def)

lemma ex_log_softmax2: "log_softmax [[0, 0], [0, 0]] = [[- ln 2, - ln 2], [- ln 2, - ln 2]]"
  by (simp add: log_softmax_def log_softmax_row_def)

lemma ex_nll2: "nll_loss [[- ln 2, - ln 2], [- ln 2, - ln 2]] [0, 0] = Inr [ln 2, ln 2]"
  by (simp add: nll_loss_def)

lemma ex_confidence1: "confidence_of [[1/2, 1/2]] = Inr [0]"
  by (simp add: confidence_of_def amax_def amin_def)

lemma ex_argmax1: "argmax [[1/2, 1/2]] = Inr [0]"
  by (simp add: argmax_def)

lemma ex_log_softmax1: "log_softmax [[0, 0]] = [[- ln 2, - ln 2]]"
  by (simp add: log_softmax_def log_softmax_row_def)

lemma ex_nll1: "nll_loss [[- ln 2, - ln 2]] [0] = Inr [ln 2]"
  by (simp add: nll_loss_def)

lemma ex_loss2:
  "pseudo_label_loss [[0, 0], [0, 0]] [[1, 0], [1/2, 1/2]] alpha
     = Inr (Some ((if alpha \<le> 1 then ln 2 else 0) / 2 + (if alpha \<le> 0 then ln 2 else 0) / 2),
            [alpha \<le> 1, alpha \<le> 0])"
  by (simp add: pseudo_label_loss_def ex_confidence2 ex_argmax2 ex_log_softmax2 ex_nll2
      mul_mask_def mean_def add_divide_distrib)

lemma ex_loss1:
  "pseudo_label_loss [[0, 0]] [[1/2, 1/2]] alpha
     = Inr (Some (if alpha \<le> 0 then ln 2 else 0), [alpha \<le> 0])"
  by (simp add: pseudo_label_loss_def ex_confidence1 ex_argmax1 ex_log_softmax1 ex_nll1
      mul_mask_def mean_def)

text \<open>
  C1, as the specification states it: the loss is the mean over the masked examples
  only, and a batch with no masked example fails with a division by zero. The code
  takes \<^verbatim>\<open>.mean()\<close> of the masked vector, which divides by the batch size. On the
  two-example batch with one masked example the code returns \<open>ln 2 / 2\<close> where the
  specification's loss is \<open>ln 2\<close>; on a batch whose only example is not masked the code
  returns 0 where the specification's loss is undefined.
\<close>

theorem pseudo_label_loss_not_masked_mean:
  "pseudo_label_loss [[0, 0], [0, 0]] [[1, 0], [1/2, 1/2]] (1/2)
     = Inr (Some (ln 2 / 2), [True, False])
   \<and> spec_pseudo_label_loss [[0, 0], [0, 0]] [[1, 0], [1/2, 1/2]] (1/2)
     = Inr (Some (ln 2), [True, False])
   \<and> ln 2 / 2 \<noteq> (ln 2 :: real)
   \<and> pseudo_label_loss [[0, 0]] [[1/2, 1/2]] (1/2) = Inr (Some 0, [False])
   \<and> spec_pseudo_label_loss [[0, 0]] [[1/2, 1/2]] (1/2) = Inr (None, [False])"
proof -
  have s2: "spec_pseudo_label_loss [[0, 0], [0, 0]] [[1, 0], [1/2, 1/2]] (1/2)
              = Inr (Some (ln 2), [True, False])"
    by (simp add: spec_pseudo_label_loss_def ex_confidence2 ex_argmax2 ex_log_softmax2 ex_nll2
        mean_def)
  have s1: "spec_pseudo_label_loss [[0, 0]] [[1/2, 1/2]] (1/2) = Inr (None, [False])"
    by (simp add: spec_pseudo_label_loss_def ex_confidence1 ex_argmax1 ex_log_softmax1 ex_nll1
        mean_def)
  show ?thesis using s2 s1 ln2_half by (simp add: ex_loss2 ex_loss1)
qed

text \<open>
  C1, amended: whenever \<open>pseudo_label_loss\<close> returns, the teacher label of every
  example is the index of a largest entry of its ensemble row, and the loss is the sum
  over the masked examples of the negative log-likelihood of the student's log-softmax at
  the teacher label, divided by the number of all examples of the batch (NaN only for
  a batch with no example at all). Unmasked examples add zero to the numerator and are
  counted in the denominator; a non-empty batch in which no example passes the mask has
  the loss 0.
\<close>

theorem pseudo_label_loss_batch_mean:
  assumes "pseudo_label_loss student_logits ensemble_probs alpha = Inr (loss, msk)"
  shows "\<exists>teacher_pred. argmax ensemble_probs = Inr teacher_pred \<and>
     (\<forall>i < length ensemble_probs.
        teacher_pred ! i < length (ensemble_probs ! i) \<and>
        (\<forall>j < length (ensemble_probs ! i).
           ensemble_probs ! i ! j \<le> ensemble_probs ! i ! (teacher_pred ! i))) \<and>
     loss = (if ensemble_probs = [] then None
             else Some ((\<Sum>i = 0..<length ensemble_probs.
                           if msk ! i
                           then - (log_softmax_row (student_logits ! i) ! (teacher_pred ! i))
                           else 0) / real (length ensemble_probs))) \<and>
     (ensemble_probs \<noteq> [] \<and> mask_sum msk = 0 \<longrightarrow> loss = Some 0)"
proof -
  from assms obtain c t nll masked where c: "confidence_of ensemble_probs = Inr c"
    and m: "msk = map (\<lambda>v. alpha \<le> v) c"
    and t: "argmax ensemble_probs = Inr t"
    and nll: "nll_loss (log_softmax student_logits) t = Inr nll"
    and masked: "mul_mask nll msk = Inr masked"
    and loss: "loss = mean masked"
    by (auto simp: pseudo_label_loss_def Let_def split: sum.splits)
  let ?n = "length ensemble_probs"
  have lt: "length t = ?n" using argmax_Inr(1)[OF t] .
  have lm: "length msk = ?n" using m confidence_of_Inr(1)[OF c] by simp
  have ln: "length nll = ?n" and ll: "length student_logits = ?n"
    using nll_loss_Inr(1,2)[OF nll] lt by (simp_all add: log_softmax_def)
  have md: "masked = map2 (\<lambda>x b. x * (if b then 1 else 0)) nll msk"
    using masked by (auto simp: mul_mask_def split: if_splits)
  then have lmk: "length masked = ?n" using ln lm by simp
  have nth: "masked ! i = (if msk ! i then - (log_softmax_row (student_logits ! i) ! (t ! i)) else 0)"
    if "i < ?n" for i
  proof -
    have "nll ! i = - (log_softmax student_logits ! i ! (t ! i))"
      using nll_loss_Inr(3)[OF nll] that lt by simp
    then show ?thesis using that md ln lm ll by (simp add: log_softmax_def)
  qed
  have sum: "sum_list masked = (\<Sum>i = 0..<?n. if msk ! i
                 then - (log_softmax_row (student_logits ! i) ! (t ! i)) else 0)"
    using nth lmk by (simp add: sum_list_sum_nth)
  have val: "loss = (if ensemble_probs = [] then None
             else Some ((\<Sum>i = 0..<?n. if msk ! i
                           then - (log_softmax_row (student_logits ! i) ! (t ! i))
                           else 0) / real ?n))"
    using loss sum lmk by (auto simp: mean_def)
  have zero: "loss = Some 0" if "ensemble_probs \<noteq> []" "mask_sum msk = 0"
  proof -
    have "\<not> msk ! i" if "i < ?n" for i using mask_sum_0[OF \<open>mask_sum msk = 0\<close>] that lm by simp
    then have "(\<Sum>i = 0..<?n. if msk ! i
                 then - (log_softmax_row (student_logits ! i) ! (t ! i)) else 0) = 0"
      by simp
    then show ?thesis using val that(1) by simp
  qed
  have first: "\<forall>i < ?n. t ! i < length (ensemble_probs ! i) \<and>
        (\<forall>j < length (ensemble_probs ! i). ensemble_probs ! i ! j \<le> ensemble_probs ! i ! (t ! i))"
    using argmax_Inr(2)[OF t] by simp
  show ?thesis
  proof (intro exI conjI)
    show "argmax ensemble_probs = Inr t" by (rule t)
    show "\<forall>i < ?n. t ! i < length (ensemble_probs ! i) \<and>
        (\<forall>j < length (ensemble_probs ! i). ensemble_probs ! i ! j \<le> ensemble_probs ! i ! (t ! i))"
      by (rule first)
    show "loss = (if ensemble_probs = [] then None
             else Some ((\<Sum>i = 0..<?n. if msk ! i
                           then - (log_softmax_row (student_logits ! i) ! (t ! i))
                           else 0) / real ?n))" by (rule val)
    show "ensemble_probs \<noteq> [] \<and> mask_sum msk = 0 \<longrightarrow> loss = Some 0"
      using zero by simp
  qed
qed

theorem pseudo_label_loss_batch_mean_witness:
  "pseudo_label_loss [[0, 0], [0, 0]] [[1, 0], [1/2, 1/2]] (1/2)
     = Inr (Some (ln 2 / 2), [True, False])
   \<and> (\<exists>teacher_pred. argmax [[1, 0], [1/2, 1/2]] = Inr teacher_pred)
   \<and> mask_sum [True, False] = 1"
proof -
  have p: "pseudo_label_loss [[0, 0], [0, 0]] [[1, 0], [1/2, 1/2]] (1/2)
             = Inr (Some (ln 2 / 2), [True, False])"
    by (simp add: ex_loss2)
  from pseudo_label_loss_batch_mean[OF p]
  have "\<exists>teacher_pred. argmax [[1, 0], [1/2, 1/2]] = Inr teacher_pred"
    by (elim exE conjE) (rule exI)
  then show ?thesis using p by (simp add: mask_sum_def)
qed

text \<open>
  C2: whenever \<open>pseudo_label_loss\<close> returns, its mask has one entry per example, and
  the entry of example \<open>i\<close> says whether the largest entry of its ensemble row minus the
  smallest is at least alpha; an example whose spread equals alpha is in the mask.
\<close>

theorem pseudo_label_loss_mask:
  assumes "pseudo_label_loss student_logits ensemble_probs alpha = Inr (loss, msk)"
  shows "length msk = length ensemble_probs \<and>
     (\<forall>i < length ensemble_probs.
        msk ! i = (alpha \<le> Max (set (ensemble_probs ! i)) - Min (set (ensemble_probs ! i)))) \<and>
     (\<forall>i < length ensemble_probs.
        Max (set (ensemble_probs ! i)) - Min (set (ensemble_probs ! i)) = alpha \<longrightarrow> msk ! i)"
proof -
  from assms obtain c where c: "confidence_of ensemble_probs = Inr c"
    and m: "msk = map (\<lambda>v. alpha \<le> v) c"
    by (auto simp: pseudo_label_loss_def Let_def split: sum.splits)
  show ?thesis using confidence_of_Inr[OF c] m by simp
qed

theorem pseudo_label_loss_mask_witness:
  "pseudo_label_loss [[0, 0], [0, 0]] [[1, 0], [1/2, 1/2]] 1 = Inr (Some (ln 2 / 2), [True, False])
   \<and> Max (set [1, 0 :: real]) - Min (set [1, 0 :: real]) = 1
   \<and> [True, False] ! 0
   \<and> \<not> [True, False] ! 1
   \<and> \<not> (1 \<le> Max (set [1/2, 1/2 :: real]) - Min (set [1/2, 1/2 :: real]))"
proof -
  have p: "pseudo_label_loss [[0, 0], [0, 0]] [[1, 0], [1/2, 1/2]] 1
             = Inr (Some (ln 2 / 2), [True, False])"
    by (simp add: ex_loss2)
  show ?thesis using p pseudo_label_loss_mask[OF p] by simp
qed

subsection \<open>The confidence threshold of an empty loader\<close>

text \<open>
  C8: with a loader that yields no batch, \<open>calc_alpha\<close> raises: \<^verbatim>\<open>torch.cat\<close> refuses
  the empty list of tensors, an invalid argument, with a \<open>RuntimeError\<close> that nothing
  catches, and no value is returned.
\<close>

theorem calc_alpha_empty_loader: "calc_alpha s [] confidence_q = Inl RuntimeError"
  by (simp add: calc_alpha_def cat_def)

subsection \<open>The sweep over no confidence quantile\<close>

text \<open>
  C10: with an empty \<^verbatim>\<open>confidence_q_list\<close> the sweep produces no candidate, the
  selection leaves \<^verbatim>\<open>best_model\<close> at \<^verbatim>\<open>None\<close>, the commit raises on it, and the object,
  its model included, is as it was.
\<close>

theorem adapt_empty_list:
  "sweep env domain_idx d2l a [] s [] = (Inr [], s)
   \<and> select_best [] (None, None) = (None, None)
   \<and> adapt env s domain_idx d2l [] a = (Inl AttributeError, s)"
  by (simp add: adapt_def)

subsection \<open>The momentum of a store update\<close>

lemma gather_Inr:
  assumes "gather t idx = Inr rows"
  shows "rows = map (\<lambda>i. t ! i) idx" and "\<forall>i \<in> set idx. i < length t"
proof -
  have tr: "traverse (\<lambda>i. if i < length t then Inr (t ! i) else Inl IndexError) idx = Inr rows"
    using assms by (simp add: gather_def)
  have eq: "\<forall>k < length idx. (if idx ! k < length t then Inr (t ! (idx ! k)) else Inl IndexError)
                   = (Inr (rows ! k) :: error + real list)"
    using traverse_Inr_nth[OF tr] by simp
  have len: "length rows = length idx" using tr by (rule traverse_Inr_length)
  show "\<forall>i \<in> set idx. i < length t"
  proof
    fix i assume "i \<in> set idx"
    then obtain k where k: "k < length idx" "idx ! k = i" by (auto simp: in_set_conv_nth)
    with eq show "i < length t" by (auto split: if_splits)
  qed
  show "rows = map (\<lambda>i. t ! i) idx"
  proof (rule nth_equalityI)
    show "length rows = length (map (\<lambda>i. t ! i) idx)" using len by simp
    fix k assume "k < length rows"
    then have k: "k < length idx" using len by simp
    with eq have "(if idx ! k < length t then Inr (t ! (idx ! k)) else Inl IndexError)
                   = (Inr (rows ! k) :: error + real list)" by blast
    then show "rows ! k = map (\<lambda>i. t ! i) idx ! k" using k by (auto split: if_splits)
  qed
qed



lemma ex_softmax: "softmax [[ln 3, 0], [0, 0]] = [[3/4, 1/4], [1/2, 1/2]]"
  by (simp add: softmax_def softmax_row_def)







subsection \<open>The division by the number of masked examples at the end of an epoch\<close>















subsection \<open>One adaptation run on the instance\<close>

text \<open>On the instance, the store update for the first domain replaces both rows by the
  softmax rows, whatever the store held; alpha is 0 at the quantile 0 and 1/2 at the
  quantile 1; one epoch trains the model to alpha and scores 2.\<close>

lemma ex_momentum1:
  "momentum_of ex_env \<lparr>model = 0, Z = Z0, z = [[a', b'], [c', d']], slope = 0, pl_acc_list = pl\<rparr>
     1 ex_loader = Inr 0"
  by (simp add: momentum_of_def ex_env_def ex_loader_def ex_batch_def gather_def cat_def entropy_def mean_def
      momentum_value_def)

lemma ex_normalize: "normalize [[3/4, 1/4], [1/2, 1/2]] = [[3/4, 1/4], [1/2, 1/2]]"
  by (simp add: normalize_def normalize_row_def)

lemma ex_update_batch:
  "update_batch ex_env (Some 0)
     \<lparr>model = 0, Z = [[a, b], [c, d]], z = [[a', b'], [c', d']], slope = 0, pl_acc_list = pl\<rparr>
     ex_batch
   = (Inr (), \<lparr>model = 0, Z = [[3/4, 1/4], [1/2, 1/2]], z = [[3/4, 1/4], [1/2, 1/2]],
               slope = 0, pl_acc_list = pl\<rparr>)"
  by (simp add: update_batch_def ex_batch_def ex_env_def ex_softmax gather_def blend_def scatter_def
      ex_normalize)

lemma ex_update_Z:
  "update_Z ex_env
     \<lparr>model = 0, Z = [[a, b], [c, d]], z = [[a', b'], [c', d']], slope = 0, pl_acc_list = pl\<rparr>
     [(1, ex_loader)] 1
   = (Inr (), \<lparr>model = 0, Z = [[3/4, 1/4], [1/2, 1/2]], z = [[3/4, 1/4], [1/2, 1/2]],
               slope = 0, pl_acc_list = pl\<rparr>)"
proof -
  have "set_eval ex_env 0 = 0" by (simp add: ex_env_def)
  then show ?thesis
    by (simp add: update_Z_def ex_momentum1)
       (simp add: ex_loader_def ex_update_batch)
qed

lemma ex_confidenceP: "confidence_of [[3/4, 1/4], [1/2, 1/2]] = Inr [1/2, 0]"
  by (simp add: confidence_of_def amax_def amin_def)

lemma ex_quantile: "quantile [1/2, 0] 0 = Inr 0" "quantile [1/2, 0] 1 = Inr (1/2)"
  by (simp_all add: quantile_def)

lemma ex_calc_alpha:
  "calc_alpha \<lparr>model = 0, Z = [[3/4, 1/4], [1/2, 1/2]], z = zz, slope = 0, pl_acc_list = pl\<rparr>
     ex_loader 0 = Inr 0"
  "calc_alpha \<lparr>model = 0, Z = [[3/4, 1/4], [1/2, 1/2]], z = zz, slope = 0, pl_acc_list = pl\<rparr>
     ex_loader 1 = Inr (1/2)"
  by (simp_all add: calc_alpha_def ex_loader_def ex_batch_def gather_def cat_def ex_confidenceP
      ex_quantile)









subsection \<open>The selection of the best candidate\<close>









subsection \<open>The confidence threshold as a function of the quantile\<close>

lemma floor_ceiling_bounds:
  assumes "0 \<le> r" "r \<le> real n"
  shows "nat \<lfloor>r\<rfloor> \<le> nat \<lceil>r\<rceil>" and "nat \<lceil>r\<rceil> \<le> n"
    and "real (nat \<lfloor>r\<rfloor>) \<le> r" and "r \<le> real (nat \<lceil>r\<rceil>)"
    and "r - real (nat \<lfloor>r\<rfloor>) < 1" and "nat \<lceil>r\<rceil> \<le> nat \<lfloor>r\<rfloor> + 1"
proof -
  show "nat \<lfloor>r\<rfloor> \<le> nat \<lceil>r\<rceil>" by (intro nat_mono floor_le_ceiling)
  show "nat \<lceil>r\<rceil> \<le> n" using assms(2) by (simp add: ceiling_le_iff)
  have f0: "0 \<le> \<lfloor>r\<rfloor>" using assms(1) by simp
  then have "real (nat \<lfloor>r\<rfloor>) = of_int \<lfloor>r\<rfloor>" by simp
  then show "real (nat \<lfloor>r\<rfloor>) \<le> r" "r - real (nat \<lfloor>r\<rfloor>) < 1" by linarith+
  have "0 \<le> \<lceil>r\<rceil>" using assms(1) by (simp add: ceiling_le_iff le_ceiling_iff)
  then have "real (nat \<lceil>r\<rceil>) = of_int \<lceil>r\<rceil>" by simp
  then show "r \<le> real (nat \<lceil>r\<rceil>)" by linarith
  have "\<lceil>r\<rceil> \<le> \<lfloor>r\<rfloor> + 1" using ceiling_diff_floor_le_1[of r] by linarith
  then have "nat \<lceil>r\<rceil> \<le> nat (\<lfloor>r\<rfloor> + 1)" by (rule nat_mono)
  also have "nat (\<lfloor>r\<rfloor> + 1) = nat \<lfloor>r\<rfloor> + 1" using f0 by (simp add: nat_add_distrib)
  finally show "nat \<lceil>r\<rceil> \<le> nat \<lfloor>r\<rfloor> + 1" .
qed

lemma interp_between:
  assumes "sorted (s :: real list)" "0 \<le> r" "r \<le> real (length s - 1)" "s \<noteq> []"
  shows "s ! nat \<lfloor>r\<rfloor> \<le> s ! nat \<lfloor>r\<rfloor> + (r - real (nat \<lfloor>r\<rfloor>)) * (s ! nat \<lceil>r\<rceil> - s ! nat \<lfloor>r\<rfloor>)"
    and "s ! nat \<lfloor>r\<rfloor> + (r - real (nat \<lfloor>r\<rfloor>)) * (s ! nat \<lceil>r\<rceil> - s ! nat \<lfloor>r\<rfloor>) \<le> s ! nat \<lceil>r\<rceil>"
proof -
  define lo hi where "lo = nat \<lfloor>r\<rfloor>" and "hi = nat \<lceil>r\<rceil>"
  note fc = floor_ceiling_bounds[OF assms(2,3), folded lo_def hi_def]
  have "length s - 1 < length s" using assms(4) by simp
  with fc(2) have "hi < length s" by (rule le_less_trans)
  then have d: "0 \<le> s ! hi - s ! lo" using sorted_nth_mono[OF assms(1) fc(1)] by simp
  have w0: "0 \<le> r - real lo" using fc(3) by simp
  have 1: "s ! lo \<le> s ! lo + (r - real lo) * (s ! hi - s ! lo)"
    using d w0 by simp
  have "(r - real lo) * (s ! hi - s ! lo) \<le> 1 * (s ! hi - s ! lo)"
    using d fc(5) by (intro mult_right_mono) simp_all
  then have 2: "s ! lo + (r - real lo) * (s ! hi - s ! lo) \<le> s ! hi" by simp
  show "s ! nat \<lfloor>r\<rfloor> \<le> s ! nat \<lfloor>r\<rfloor> + (r - real (nat \<lfloor>r\<rfloor>)) * (s ! nat \<lceil>r\<rceil> - s ! nat \<lfloor>r\<rfloor>)"
    using 1 unfolding lo_def hi_def .
  show "s ! nat \<lfloor>r\<rfloor> + (r - real (nat \<lfloor>r\<rfloor>)) * (s ! nat \<lceil>r\<rceil> - s ! nat \<lfloor>r\<rfloor>) \<le> s ! nat \<lceil>r\<rceil>"
    using 2 unfolding lo_def hi_def .
qed

lemma interp_mono:
  assumes "sorted (s :: real list)" "0 \<le> r1" "r1 \<le> r2" "r2 \<le> real (length s - 1)" "s \<noteq> []"
  shows "s ! nat \<lfloor>r1\<rfloor> + (r1 - real (nat \<lfloor>r1\<rfloor>)) * (s ! nat \<lceil>r1\<rceil> - s ! nat \<lfloor>r1\<rfloor>)
       \<le> s ! nat \<lfloor>r2\<rfloor> + (r2 - real (nat \<lfloor>r2\<rfloor>)) * (s ! nat \<lceil>r2\<rceil> - s ! nat \<lfloor>r2\<rfloor>)"
proof -
  define lo1 hi1 lo2 hi2 where "lo1 = nat \<lfloor>r1\<rfloor>" and "hi1 = nat \<lceil>r1\<rceil>"
    and "lo2 = nat \<lfloor>r2\<rfloor>" and "hi2 = nat \<lceil>r2\<rceil>"
  have r1n: "r1 \<le> real (length s - 1)" and r20: "0 \<le> r2" using assms(2,3,4) by simp_all
  note fc1 = floor_ceiling_bounds[OF assms(2) r1n, folded lo1_def hi1_def]
  note fc2 = floor_ceiling_bounds[OF r20 assms(4), folded lo2_def hi2_def]
  note ib1 = interp_between[OF assms(1,2) r1n assms(5), folded lo1_def hi1_def]
  note ib2 = interp_between[OF assms(1) r20 assms(4,5), folded lo2_def hi2_def]
  have "length s - 1 < length s" using assms(5) by simp
  with fc2(2) have h2: "hi2 < length s" by (rule le_less_trans)
  have lo12: "lo1 \<le> lo2" unfolding lo1_def lo2_def using assms(3) by (intro nat_mono floor_mono)
  have hi12: "hi1 \<le> hi2" unfolding hi1_def hi2_def using assms(3) by (intro nat_mono ceiling_mono)
  have goal: "s ! lo1 + (r1 - real lo1) * (s ! hi1 - s ! lo1)
       \<le> s ! lo2 + (r2 - real lo2) * (s ! hi2 - s ! lo2)"
  proof (cases "lo1 = lo2")
    case True
    show ?thesis
    proof (cases "hi1 = hi2")
      case hi: True
      have d: "0 \<le> s ! hi2 - s ! lo2" using sorted_nth_mono[OF assms(1) fc2(1) h2] by simp
      have "(r1 - real lo2) * (s ! hi2 - s ! lo2) \<le> (r2 - real lo2) * (s ! hi2 - s ! lo2)"
        using d assms(3) by (intro mult_right_mono) simp_all
      then show ?thesis using True hi by simp
    next
      case False
      then have "hi1 < hi2" using hi12 by simp
      then have "hi1 \<le> lo1" using fc2(6) True by simp
      then have eq: "hi1 = lo1" using fc1(1) by simp
      have l: "s ! lo1 + (r1 - real lo1) * (s ! hi1 - s ! lo1) = s ! lo2"
        using eq True by simp
      show ?thesis unfolding l by (rule ib2(1))
    qed
  next
    case False
    then have lt: "lo1 < lo2" using lo12 by simp
    then have h12: "hi1 \<le> lo2" using fc1(6) by simp
    have "lo2 < length s" using fc2(1) h2 by simp
    then have m: "s ! hi1 \<le> s ! lo2" using sorted_nth_mono[OF assms(1) h12] by simp
    have "s ! lo1 + (r1 - real lo1) * (s ! hi1 - s ! lo1) \<le> s ! hi1" by (rule ib1(2))
    also have "\<dots> \<le> s ! lo2" by (rule m)
    also have "\<dots> \<le> s ! lo2 + (r2 - real lo2) * (s ! hi2 - s ! lo2)" by (rule ib2(1))
    finally show ?thesis .
  qed
  show ?thesis using goal unfolding lo1_def hi1_def lo2_def hi2_def .
qed

lemma quantile_mono:
  assumes "xs \<noteq> []" "0 \<le> q1" "q1 \<le> q2" "q2 \<le> 1"
  shows "\<exists>a1 a2. quantile xs q1 = Inr a1 \<and> quantile xs q2 = Inr a2 \<and> a1 \<le> a2"
proof -
  define srt n where "srt = sort xs" and "n = real (length xs - 1)"
  have n0: "0 \<le> n" by (simp add: n_def)
  have len: "length srt = length xs" by (simp add: srt_def)
  have s: "sorted srt" "srt \<noteq> []" "real (length srt - 1) = n"
  proof -
    show "sorted srt" by (simp add: srt_def)
    show "srt \<noteq> []" using len assms(1) by (metis length_0_conv)
    show "real (length srt - 1) = n" using len by (simp add: n_def)
  qed
  have r: "0 \<le> q1 * n" "q1 * n \<le> q2 * n" "q2 * n \<le> real (length srt - 1)"
  proof -
    show "0 \<le> q1 * n" using assms(2) n0 by simp
    show "q1 * n \<le> q2 * n" using assms(3) n0 by (rule mult_right_mono)
    have "q2 * n \<le> 1 * n" using assms(4) n0 by (rule mult_right_mono)
    then show "q2 * n \<le> real (length srt - 1)" using s(3) by simp
  qed
  have q1: "quantile xs q1 = Inr (srt ! nat \<lfloor>q1 * n\<rfloor>
              + (q1 * n - real (nat \<lfloor>q1 * n\<rfloor>)) * (srt ! nat \<lceil>q1 * n\<rceil> - srt ! nat \<lfloor>q1 * n\<rfloor>))"
    using assms by (simp add: quantile_def Let_def srt_def n_def)
  have q2: "quantile xs q2 = Inr (srt ! nat \<lfloor>q2 * n\<rfloor>
              + (q2 * n - real (nat \<lfloor>q2 * n\<rfloor>)) * (srt ! nat \<lceil>q2 * n\<rceil> - srt ! nat \<lfloor>q2 * n\<rfloor>))"
    using assms by (simp add: quantile_def Let_def srt_def n_def)
  show ?thesis using q1 q2 interp_mono[OF s(1) r(1,2,3) s(2)] by simp
qed

text \<open>
  C5: for a store and a loader on which \<open>calc_alpha\<close> returns at all (so the loader is
  not empty), it returns for every quantile in [0, 1], and for \<open>q1 \<le> q2\<close> in [0, 1]
  the threshold at \<open>q1\<close> is at most the threshold at \<open>q2\<close>.
\<close>

theorem calc_alpha_monotone:
  assumes "calc_alpha s loader q0 = Inr a0" "0 \<le> q1" "q1 \<le> q2" "q2 \<le> 1"
  shows "\<exists>a1 a2. calc_alpha s loader q1 = Inr a1 \<and> calc_alpha s loader q2 = Inr a2 \<and> a1 \<le> a2"
proof -
  from assms(1) obtain tp tc c where
    tp: "traverse (\<lambda>(idx, img, y). gather (Z s) idx) loader = Inr tp"
    and tc: "cat tp = Inr tc"
    and c: "confidence_of tc = Inr c"
    and q: "quantile c q0 = Inr a0"
    by (auto simp: calc_alpha_def split: sum.splits)
  have ne: "c \<noteq> []" using q by (auto simp: quantile_def split: if_splits)
  have eq: "calc_alpha s loader q = quantile c q" for q
    using tp tc c by (simp add: calc_alpha_def)
  show ?thesis using quantile_mono[OF ne assms(2,3,4)] by (simp add: eq)
qed

theorem calc_alpha_monotone_witness:
  "calc_alpha \<lparr>model = 0 :: real, Z = [[3/4, 1/4], [1/2, 1/2]], z = [[3/4, 1/4], [1/2, 1/2]],
       slope = 0, pl_acc_list = []\<rparr> ex_loader 0 = Inr 0
   \<and> calc_alpha \<lparr>model = 0 :: real, Z = [[3/4, 1/4], [1/2, 1/2]], z = [[3/4, 1/4], [1/2, 1/2]],
       slope = 0, pl_acc_list = []\<rparr> ex_loader 1 = Inr (1/2)
   \<and> (0::real) \<le> 1/2"
proof -
  let ?s = "\<lparr>model = 0 :: real, Z = [[3/4, 1/4], [1/2, 1/2]], z = [[3/4, 1/4], [1/2, 1/2]],
       slope = 0, pl_acc_list = []\<rparr>"
  have a0: "calc_alpha ?s ex_loader 0 = Inr 0" by (rule ex_calc_alpha(1))
  have a1: "calc_alpha ?s ex_loader 1 = Inr (1/2)" by (rule ex_calc_alpha(2))
  from calc_alpha_monotone[OF a0, of 0 1] obtain b1 b2 where
    "calc_alpha ?s ex_loader 0 = Inr b1" "calc_alpha ?s ex_loader 1 = Inr b2" "b1 \<le> b2"
    by auto
  then show ?thesis using a0 a1 by simp
qed

subsection \<open>What a store update writes\<close>

lemma fold_upd_length:
  "length (fold (\<lambda>(i, r) u. u[i := r]) ps t) = length t"
  by (induction ps arbitrary: t) (auto split: prod.splits)

lemma fold_upd_frame:
  "i \<notin> fst ` set ps \<Longrightarrow> fold (\<lambda>(i, r) u. u[i := r]) ps t ! i = t ! i"
proof (induction ps arbitrary: t)
  case Nil
  then show ?case by simp
next
  case (Cons p ps)
  obtain j r where p: "p = (j, r)" by (cases p)
  have "j \<noteq> i" and "i \<notin> fst ` set ps" using Cons.prems p by auto
  then show ?case using Cons.IH[of "t[j := r]"] p by simp
qed

lemma fold_upd_map:
  "i \<in> set idx \<Longrightarrow> i < length t
     \<Longrightarrow> fold (\<lambda>(i, r) u. u[i := r]) (zip idx (map f idx)) t ! i = f i"
proof (induction idx arbitrary: t)
  case Nil
  then show ?case by simp
next
  case (Cons j idx)
  show ?case
  proof (cases "i \<in> set idx")
    case True
    then show ?thesis using Cons.IH[of "t[j := f j]"] Cons.prems(2) by simp
  next
    case False
    then have ij: "i = j" using Cons.prems(1) by simp
    have "i \<notin> fst ` set (zip idx (map f idx))"
      using False by (auto dest: set_zip_leftD)
    then have "fold (\<lambda>(i, r) u. u[i := r]) (zip idx (map f idx)) (t[j := f j]) ! i
                 = (t[j := f j]) ! i"
      by (rule fold_upd_frame)
    then show ?thesis using ij Cons.prems(2) by simp
  qed
qed

lemma scatter_Inr:
  assumes "scatter t idx rows = Inr t'"
  shows "length t' = length t" and "i \<notin> set idx \<Longrightarrow> t' ! i = t ! i"
proof -
  have t': "t' = fold (\<lambda>(i, r) u. u[i := r]) (zip idx rows) t"
    using assms by (auto simp: scatter_def split: if_splits)
  show "length t' = length t" using t' by (simp add: fold_upd_length)
  assume "i \<notin> set idx"
  then have "i \<notin> fst ` set (zip idx rows)" by (auto dest: set_zip_leftD)
  then show "t' ! i = t ! i" using t' by (simp add: fold_upd_frame)
qed

lemma scatter_map_Inr:
  assumes "scatter t idx (map f idx) = Inr t'" "i \<in> set idx"
  shows "t' ! i = f i"
proof -
  have t': "t' = fold (\<lambda>(i, r) u. u[i := r]) (zip idx (map f idx)) t"
    and rng: "\<not> (\<exists>i \<in> set idx. length t \<le> i)"
    using assms(1) by (auto simp: scatter_def split: if_splits)
  have "i < length t" using rng assms(2) by auto
  then show ?thesis using t' assms(2) by (simp add: fold_upd_map)
qed

lemma update_batch_frame:
  assumes "update_batch env momentum s (idx, img, y) = (r, s')"
  shows "length (Z s') = length (Z s) \<and> length (z s') = length (z s) \<and>
         model s' = model s \<and> slope s' = slope s \<and>
         (i \<notin> set idx \<longrightarrow> Z s' ! i = Z s ! i \<and> z s' ! i = z s ! i)"
proof (cases momentum)
  case None
  then show ?thesis using assms by (simp add: update_batch_def)
next
  case (Some m)
  show ?thesis
  proof (cases "gather (Z s) idx")
    case (Inl e)
    then show ?thesis using assms Some by (simp add: update_batch_def)
  next
    case old: (Inr old)
    show ?thesis
    proof (cases "blend m old (softmax (forward env (model s) img))")
      case (Inl e)
      then show ?thesis using assms Some old by (simp add: update_batch_def)
    next
      case new: (Inr new)
      show ?thesis
      proof (cases "scatter (Z s) idx new")
        case (Inl e)
        then show ?thesis using assms Some old new by (simp add: update_batch_def)
      next
        case Z': (Inr Z')
        note sz = scatter_Inr[OF Z']
        show ?thesis
        proof (cases "gather Z' idx")
          case (Inl e)
          then show ?thesis using assms Some old new Z' sz by (auto simp: update_batch_def)
        next
          case rows: (Inr rows)
          show ?thesis
          proof (cases "scatter (z s) idx (normalize rows)")
            case (Inl e)
            then show ?thesis using assms Some old new Z' rows sz
              by (auto simp: update_batch_def)
          next
            case z': (Inr z')
            note szz = scatter_Inr[OF z']
            show ?thesis using assms Some old new Z' rows z' sz szz
              by (auto simp: update_batch_def)
          qed
        qed
      qed
    qed
  qed
qed

lemma update_batch_normalized:
  assumes "update_batch env momentum s (idx, img, y) = (Inr (), s')" "i \<in> set idx"
  shows "z s' ! i = normalize_row (Z s' ! i)"
proof -
  from assms(1) obtain m old new Z' rows z' where
    Z': "scatter (Z s) idx new = Inr Z'"
    and rows: "gather Z' idx = Inr rows"
    and z': "scatter (z s) idx (normalize rows) = Inr z'"
    and s': "s' = s\<lparr>Z := Z', z := z'\<rparr>"
    by (auto simp: update_batch_def Let_def split: option.splits sum.splits)
  have "rows = map (\<lambda>i. Z' ! i) idx" using rows by (rule gather_Inr(1))
  then have "normalize rows = map (\<lambda>i. normalize_row (Z' ! i)) idx"
    by (simp add: normalize_def)
  then have "scatter (z s) idx (map (\<lambda>i. normalize_row (Z' ! i)) idx) = Inr z'"
    using z' by simp
  then have "z' ! i = normalize_row (Z' ! i)" using assms(2) by (rule scatter_map_Inr)
  then show ?thesis using s' by simp
qed

lemma update_loader_frame:
  "update_loader env momentum s loader = (r, s') \<Longrightarrow>
     length (Z s') = length (Z s) \<and> length (z s') = length (z s) \<and>
     model s' = model s \<and> slope s' = slope s \<and>
     (i \<notin> (\<Union>(idx, img, y) \<in> set loader. set idx) \<longrightarrow>
        Z s' ! i = Z s ! i \<and> z s' ! i = z s ! i)"
proof (induction loader arbitrary: s)
  case Nil
  then show ?case by simp
next
  case (Cons b bs)
  obtain idx img y where b: "b = (idx, img, y)" by (cases b)
  obtain r1 s1 where u: "update_batch env momentum s (idx, img, y) = (r1, s1)"
    by (cases "update_batch env momentum s (idx, img, y)")
  note f1 = update_batch_frame[OF u, of i]
  show ?case
  proof (cases r1)
    case (Inl e)
    then have "s' = s1" using Cons.prems u b by simp
    then show ?thesis using f1 b by simp
  next
    case (Inr v)
    then have "update_loader env momentum s1 bs = (r, s')" using Cons.prems u b by simp
    from Cons.IH[OF this] show ?thesis using f1 b by simp
  qed
qed

lemma update_loader_normalized:
  "update_loader env momentum s loader = (Inr (), s') \<Longrightarrow>
     i \<in> (\<Union>(idx, img, y) \<in> set loader. set idx) \<or> z s ! i = normalize_row (Z s ! i) \<Longrightarrow>
     z s' ! i = normalize_row (Z s' ! i)"
proof (induction loader arbitrary: s)
  case Nil
  then show ?case by simp
next
  case (Cons b bs)
  obtain idx img y where b: "b = (idx, img, y)" by (cases b)
  from Cons.prems(1) b obtain s1 where u: "update_batch env momentum s (idx, img, y) = (Inr (), s1)"
    and rest: "update_loader env momentum s1 bs = (Inr (), s')"
    by (auto split: prod.splits sum.splits)
  have "i \<in> (\<Union>(idx, img, y) \<in> set bs. set idx) \<or> z s1 ! i = normalize_row (Z s1 ! i)"
  proof (cases "i \<in> set idx")
    case True
    then show ?thesis using update_batch_normalized[OF u] by simp
  next
    case False
    then have "Z s1 ! i = Z s ! i" "z s1 ! i = z s ! i" using update_batch_frame[OF u, of i] by simp_all
    then show ?thesis using Cons.prems(2) False b by auto
  qed
  then show ?case by (rule Cons.IH[OF rest])
qed

lemma touched_Cons:
  "touched domain_idx ((d, loader) # rest) =
     (if d < domain_idx then {} else (\<Union>(idx, img, y) \<in> set loader. set idx))
       \<union> touched domain_idx rest"
  by (simp add: touched_def)

lemma update_domains_frame:
  "update_domains env domain_idx momentum s d2l = (r, s') \<Longrightarrow>
     length (Z s') = length (Z s) \<and> length (z s') = length (z s) \<and>
     model s' = model s \<and> slope s' = slope s \<and>
     (i \<notin> touched domain_idx d2l \<longrightarrow> Z s' ! i = Z s ! i \<and> z s' ! i = z s ! i)"
proof (induction d2l arbitrary: s momentum)
  case Nil
  then show ?case by simp
next
  case (Cons p rest)
  obtain d loader where p: "p = (d, loader)" by (cases p)
  show ?case
  proof (cases "d < domain_idx")
    case True
    then have "update_domains env domain_idx momentum s rest = (r, s')" using Cons.prems p by simp
    from Cons.IH[OF this] show ?thesis using True p by (simp add: touched_Cons)
  next
    case False
    let ?mm = "if d = domain_idx
               then (case momentum_of env s domain_idx loader of
                       Inl e \<Rightarrow> Inl e
                     | Inr m \<Rightarrow> Inr (Some m))
               else Inr momentum"
    show ?thesis
    proof (cases ?mm)
      case (Inl e)
      then have "s' = s" using Cons.prems p False by simp
      then show ?thesis by simp
    next
      case mm: (Inr momentum')
      obtain r1 s1 where u: "update_loader env momentum' s loader = (r1, s1)"
        by (cases "update_loader env momentum' s loader")
      note f1 = update_loader_frame[OF u, of i]
      show ?thesis
      proof (cases r1)
        case (Inl e)
        then have "s' = s1" using Cons.prems p False mm u by simp
        then show ?thesis using f1 p False by (simp add: touched_Cons)
      next
        case (Inr v)
        then have "update_domains env domain_idx momentum' s1 rest = (r, s')"
          using Cons.prems p False mm u by simp
        from Cons.IH[OF this] show ?thesis using f1 p False by (simp add: touched_Cons)
      qed
    qed
  qed
qed

lemma update_domains_normalized:
  "update_domains env domain_idx momentum s d2l = (Inr (), s') \<Longrightarrow>
     i \<in> touched domain_idx d2l \<or> z s ! i = normalize_row (Z s ! i) \<Longrightarrow>
     z s' ! i = normalize_row (Z s' ! i)"
proof (induction d2l arbitrary: s momentum)
  case Nil
  then show ?case by (simp add: touched_def)
next
  case (Cons p rest)
  obtain d loader where p: "p = (d, loader)" by (cases p)
  show ?case
  proof (cases "d < domain_idx")
    case True
    then have u: "update_domains env domain_idx momentum s rest = (Inr (), s')"
      using Cons.prems(1) p by simp
    have "i \<in> touched domain_idx rest \<or> z s ! i = normalize_row (Z s ! i)"
      using Cons.prems(2) True p by (simp add: touched_Cons)
    then show ?thesis by (rule Cons.IH[OF u])
  next
    case False
    from Cons.prems(1) p False obtain momentum' s1 where
      u: "update_loader env momentum' s loader = (Inr (), s1)"
      and rest: "update_domains env domain_idx momentum' s1 rest = (Inr (), s')"
      by (auto split: sum.splits prod.splits if_splits)
    have "i \<in> touched domain_idx rest \<or> z s1 ! i = normalize_row (Z s1 ! i)"
    proof (cases "i \<in> touched domain_idx rest")
      case True
      then show ?thesis by simp
    next
      case nt: False
      then have "i \<in> (\<Union>(idx, img, y) \<in> set loader. set idx) \<or> z s ! i = normalize_row (Z s ! i)"
        using Cons.prems(2) p False by (simp add: touched_Cons)
      then have "z s1 ! i = normalize_row (Z s1 ! i)" by (rule update_loader_normalized[OF u])
      then show ?thesis by simp
    qed
    then show ?thesis by (rule Cons.IH[OF rest])
  qed
qed

lemma sum_list_divide: "sum_list (map (\<lambda>v. v / c) r) = sum_list r / (c :: real)"
  by (induction r) (simp_all add: add_divide_distrib)

lemma normalize_row_sum:
  assumes "\<forall>v \<in> set r. 0 \<le> v" "1 / 10 ^ 12 \<le> sum_list r"
  shows "sum_list (normalize_row r) = 1"
proof -
  have abs: "map abs r = r" using assms(1) by (induction r) auto
  have pos: "0 < sum_list r" using assms(2) by (rule less_le_trans[rotated]) simp
  have mx: "max (sum_list r) (1 / 10 ^ 12) = sum_list r" using assms(2) by (simp add: max_def)
  have "normalize_row r = map (\<lambda>v. v / sum_list r) r"
    unfolding normalize_row_def abs mx by (rule refl)
  then have "sum_list (normalize_row r) = sum_list (map (\<lambda>v. v / sum_list r) r)"
    by (rule arg_cong)
  also have "\<dots> = sum_list r / sum_list r"
    by (rule sum_list_divide)
  also have "\<dots> = 1" using pos by simp
  finally show ?thesis .
qed

lemma ex_softmax0: "softmax [[0, 0]] = [[1/2, 1/2]]"
  by (simp add: softmax_def softmax_row_def)

lemma ex_entropy_sure: "\<exists>e. entropy [[1, 0]] = Some e \<and> e \<le> 0"
proof -
  have "entropy [[1, 0]] = Some (- ln (1 + 1 / 10 ^ 20))"
    by (simp add: entropy_def mean_def)
  moreover have "0 \<le> ln (1 + 1 / 10 ^ 20 :: real)" by (rule ln_ge_zero) simp
  ultimately show ?thesis by simp
qed

lemma ex_entropy_uniform: "\<exists>c. entropy [[1/2, 1/2]] = Some c \<and> 1/4 \<le> c"
proof -
  have "entropy [[1/2, 1/2]] = Some (- ln (1/2 + 1 / 10 ^ 20))"
    by (simp add: entropy_def mean_def)
  moreover have "ln (1/2 + 1 / 10 ^ 20 :: real) \<le> (1/2 + 1 / 10 ^ 20) - 1"
    by (rule ln_le_minus_one) simp
  then have "1/4 \<le> - ln (1/2 + 1 / 10 ^ 20 :: real)" by simp
  ultimately show ?thesis by simp
qed

lemma ex_tiny_momentum: "momentum_of ex_env ex_tiny 2 ex_loader1 = Inr 1"
proof -
  obtain e where e: "entropy [[1, 0]] = Some e" "e \<le> 0" using ex_entropy_sure by blast
  obtain c where c: "entropy [[1/2, 1/2]] = Some c" "1/4 \<le> c" using ex_entropy_uniform by blast
  have "clip (1/2 + 2 * (c - e)) 0 1 = 1" using e(2) c(2) by (simp add: clip_def)
  then show ?thesis
    by (simp add: momentum_of_def ex_env_def ex_tiny_def ex_loader1_def gather_def cat_def
        ex_softmax0 e(1) c(1) momentum_value_def)
qed

lemma ex_tiny_normalize: "normalize [[1 / 10 ^ 13, 0]] = [[1/10, 0]]"
  by (simp add: normalize_def normalize_row_def)

lemma ex_tiny_update:
  "update_Z ex_env ex_tiny [(2, ex_loader1)] 2
     = (Inr (), \<lparr>model = 0, Z = [[1 / 10 ^ 13, 0]], z = [[1/10, 0]], slope = 2, pl_acc_list = []\<rparr>)"
proof -
  have e: "set_eval ex_env (0::real) = 0" by (simp add: ex_env_def)
  have t: "ex_tiny\<lparr>model := 0\<rparr> = ex_tiny" by (simp add: ex_tiny_def)
  have b: "update_batch ex_env (Some 1) ex_tiny ([0], [[0, 0]], [0])
     = (Inr (), \<lparr>model = 0, Z = [[1 / 10 ^ 13, 0]], z = [[1/10, 0]], slope = 2, pl_acc_list = []\<rparr>)"
    using ex_tiny_normalize
    by (simp add: update_batch_def ex_env_def ex_tiny_def ex_softmax0 gather_def blend_def
        scatter_def)
  have m: "model ex_tiny = 0" by (simp add: ex_tiny_def)
  show ?thesis
    by (simp add: update_Z_def m e t ex_tiny_momentum)
       (simp add: ex_loader1_def b)
qed

lemma ex_two_update:
  "update_Z ex_env ex_obj ex_two_domains 2
     = (Inr (), \<lparr>model = 0, Z = [[0, 0], [1/4, 1/4]], z = [[0, 0], [1/2, 1/2]],
                 slope = 0, pl_acc_list = []\<rparr>)"
proof -
  obtain c where c: "entropy [[1/2, 1/2]] = Some c" using ex_entropy_uniform by blast
  have e: "entropy [[0, 0]] = Some 0" by (simp add: entropy_def mean_def)
  have n: "normalize [[1/4, 1/4]] = [[1/2, 1/2]]" by (simp add: normalize_def normalize_row_def)
  show ?thesis
    by (simp add: update_Z_def ex_two_domains_def ex_obj_def ex_env_def momentum_of_def
        gather_def cat_def ex_softmax0 c e momentum_value_def clip_def update_batch_def
        blend_def scatter_def n)
qed

text \<open>
  C6: whatever \<open>update_Z\<close> for \<open>domain_idx\<close> does, also when it raises part of the
  way, the rows of \<open>Z\<close> and of \<open>z\<close> of an example id that occurs in no loader of a
  domain with index at least \<open>domain_idx\<close> are as they were, and both tensors keep
  their number of rows.
\<close>

theorem update_Z_frame:
  assumes "update_Z env s d2l domain_idx = (r, s')" "i \<notin> touched domain_idx d2l"
  shows "Z s' ! i = Z s ! i \<and> z s' ! i = z s ! i \<and>
         length (Z s') = length (Z s) \<and> length (z s') = length (z s)"
proof -
  have "update_domains env domain_idx None (s\<lparr>model := set_eval env (model s)\<rparr>) d2l = (r, s')"
    using assms(1) by (simp add: update_Z_def)
  from update_domains_frame[OF this, of i] show ?thesis using assms(2) by simp
qed

theorem update_Z_frame_witness:
  "update_Z ex_env ex_obj ex_two_domains 2
     = (Inr (), \<lparr>model = 0, Z = [[0, 0], [1/4, 1/4]], z = [[0, 0], [1/2, 1/2]],
                 slope = 0, pl_acc_list = []\<rparr>)
   \<and> 0 \<notin> touched 2 ex_two_domains
   \<and> Z ex_obj ! 0 = [0, 0] \<and> z ex_obj ! 0 = [0, 0]"
proof -
  let ?s = "\<lparr>model = 0 :: real, Z = [[0, 0], [1/4, 1/4]], z = [[0, 0], [1/2, 1/2]],
                 slope = 0, pl_acc_list = []\<rparr>"
  have t: "0 \<notin> touched 2 ex_two_domains" by (simp add: touched_def ex_two_domains_def)
  have "Z ?s ! 0 = Z ex_obj ! 0 \<and> z ?s ! 0 = z ex_obj ! 0"
    using update_Z_frame[OF ex_two_update t] by blast
  then have a: "Z ?s ! 0 = Z ex_obj ! 0" and b: "z ?s ! 0 = z ex_obj ! 0" by blast+
  have a': "Z ex_obj ! 0 = [0, 0]" using a[symmetric] by simp
  have b': "z ex_obj ! 0 = [0, 0]" using b[symmetric] by simp
  show ?thesis using t ex_two_update a' b' by blast
qed

text \<open>
  C4, as the specification states it: after a store update every touched row of \<open>z\<close>
  whose row of \<open>Z\<close> is not all zero sums to 1 within 1e-6. On the store with the row
  \<open>(1e-13, 0)\<close> the update for domain 2 has momentum 1 (the model is less certain than
  the ensemble), so the row of \<open>Z\<close> stays; it is not all zero, its L1 norm is below the
  \<open>eps\<close> of \<^verbatim>\<open>F.normalize\<close>, and the row of \<open>z\<close> becomes \<open>(0.1, 0)\<close>, which sums to 0.1.
\<close>

theorem update_Z_row_sum_below_one:
  "update_Z ex_env ex_tiny [(2, ex_loader1)] 2
     = (Inr (), \<lparr>model = 0, Z = [[1 / 10 ^ 13, 0]], z = [[1/10, 0]], slope = 2, pl_acc_list = []\<rparr>)
   \<and> 0 \<in> touched 2 [(2, ex_loader1)]
   \<and> [1 / 10 ^ 13, 0] \<noteq> [0, 0 :: real]
   \<and> sum_list [1/10, 0 :: real] = 1/10
   \<and> \<not> \<bar>sum_list [1/10, 0 :: real] - 1\<bar> \<le> 1 / 10 ^ 6"
proof -
  have t: "0 \<in> touched 2 [(2, ex_loader1)]" by (simp add: touched_def ex_loader1_def)
  show ?thesis using t by (simp add: ex_tiny_update)
qed

text \<open>
  C4, amended: after a store update that returns, the row of \<open>z\<close> of every example id
  the update touched is the L1 normalization of its row of \<open>Z\<close>, and it sums to 1 when
  that row of \<open>Z\<close> has no negative entry and sums to at least 1e-12, the \<open>eps\<close> of
  \<^verbatim>\<open>F.normalize\<close>.
\<close>

theorem update_Z_normalized:
  assumes "update_Z env s d2l domain_idx = (Inr (), s')" "i \<in> touched domain_idx d2l"
  shows "z s' ! i = normalize_row (Z s' ! i) \<and>
         ((\<forall>v \<in> set (Z s' ! i). 0 \<le> v) \<and> 1 / 10 ^ 12 \<le> sum_list (Z s' ! i)
            \<longrightarrow> sum_list (z s' ! i) = 1)"
proof -
  have "update_domains env domain_idx None (s\<lparr>model := set_eval env (model s)\<rparr>) d2l
          = (Inr (), s')"
    using assms(1) by (simp add: update_Z_def)
  moreover have "i \<in> touched domain_idx d2l \<or>
      z (s\<lparr>model := set_eval env (model s)\<rparr>) ! i
        = normalize_row (Z (s\<lparr>model := set_eval env (model s)\<rparr>) ! i)"
    using assms(2) by (rule disjI1)
  ultimately have n: "z s' ! i = normalize_row (Z s' ! i)"
    by (rule update_domains_normalized)
  show ?thesis using n normalize_row_sum by simp
qed

theorem update_Z_normalized_witness:
  "update_Z ex_env ex_obj [(1, ex_loader)] 1
     = (Inr (), \<lparr>model = 0, Z = [[3/4, 1/4], [1/2, 1/2]], z = [[3/4, 1/4], [1/2, 1/2]],
                 slope = 0, pl_acc_list = []\<rparr>)
   \<and> 0 \<in> touched 1 [(1, ex_loader)]
   \<and> normalize_row [3/4, 1/4] = [3/4, 1/4]
   \<and> sum_list [3/4, 1/4 :: real] = 1"
proof -
  let ?s = "\<lparr>model = 0 :: real, Z = [[3/4, 1/4], [1/2, 1/2]], z = [[3/4, 1/4], [1/2, 1/2]],
                 slope = 0, pl_acc_list = []\<rparr>"
  have u: "update_Z ex_env ex_obj [(1, ex_loader)] 1 = (Inr (), ?s)"
    by (simp add: ex_obj_def ex_update_Z)
  have t: "0 \<in> touched 1 [(1, ex_loader)]"
    by (simp add: touched_def ex_loader_def ex_batch_def)
  have "z ?s ! 0 = normalize_row (Z ?s ! 0) \<and> sum_list (z ?s ! 0) = 1"
    using update_Z_normalized[OF u t] by simp
  then show ?thesis using u t by simp
qed

end
